theory Spec2Isabelle
  imports Main "HOL-Library.Word"
begin

section \<open>Python values used by bot.py\<close>

text \<open>
  A Python \<open>str\<close> is a sequence of Unicode code points: \<open>len\<close> and slicing count code
  points, and the literals of bot.py are Cyrillic. So a \<open>str\<close> is a list of code points;
  \<open>ascii\<close> embeds an ASCII literal. \<open>bytes\<close> is a list of 8-bit words.
\<close>

type_synonym pystr = "nat list"
type_synonym bytes = "8 word list"

definition ascii :: "string \<Rightarrow> pystr" where
  "ascii s = map of_char s"

definition startswith :: "pystr \<Rightarrow> pystr \<Rightarrow> bool" where
  "startswith s p = (take (length p) s = p)"

text \<open>Truthiness of an optional string: \<open>None\<close> and \<open>''\<close> are false.\<close>

fun truthy :: "'a list option \<Rightarrow> bool" where
  "truthy None = False"
| "truthy (Some s) = (s \<noteq> [])"

text \<open>
  The values \<open>response.json()\<close> can return. A float is carried by its literal: bot.py
  only ever subscripts it (which raises) or passes it on unchanged.
\<close>

datatype json =
    JNull
  | JBool bool
  | JInt int
  | JFloat pystr
  | JStr pystr
  | JArr "json list"
  | JObj "(pystr \<times> json) list"

text \<open>
  An exception is its class, as far as the \<open>except\<close> clauses of bot.py tell classes
  apart, and \<open>str(e)\<close>. \<open>Timeout\<close> is any instance of \<open>requests.exceptions.Timeout\<close>,
  \<open>ConnectionError\<close> an instance of \<open>requests.exceptions.ConnectionError\<close> that is not a
  \<open>Timeout\<close> (the \<open>except Timeout\<close> clause comes first).
\<close>

datatype exn_kind = Timeout | ConnectionError | KeyError | IndexError | TypeError | ValueError | OtherException

datatype exn = Exn (kind: exn_kind) (msg: pystr)

section \<open>The context store of GeminiBot\<close>

text \<open>
  A content part is \<open>{"type": "text", "text": t}\<close> or
  \<open>{"type": "image_url", "image_url": {"url": u}}\<close>. The content of a turn is the part
  list built by \<open>prepare_message_content\<close> (user turns) or the value taken from the
  response (assistant turns).
\<close>

datatype part = TextPart pystr | ImagePart pystr

datatype content = Parts "part list" | Reply json

record turn =
  role :: pystr
  content :: content

record GeminiBot =
  user_contexts :: "int \<rightharpoonup> turn list"
  max_context_length :: int

definition GeminiBot_init :: GeminiBot where
  "GeminiBot_init = \<lparr>user_contexts = Map.empty, max_context_length = 10\<rparr>"

text \<open>\<open>get_user_context\<close> returns the list and the store, which gains an empty entry
  for an unknown user.\<close>

definition get_user_context :: "GeminiBot \<Rightarrow> int \<Rightarrow> turn list \<times> GeminiBot" where
  "get_user_context s user_id =
     (case user_contexts s user_id of
        None \<Rightarrow> ([], s\<lparr>user_contexts := (user_contexts s)(user_id \<mapsto> [])\<rparr>)
      | Some context \<Rightarrow> (context, s))"

text \<open>
  \<open>add_to_context\<close> appends to the list held by the store and then pops index 0 once
  (an \<open>if\<close>, not a loop) when the list is longer than \<open>max_context_length * 2\<close>. The list
  has just been appended to, so \<open>pop(0)\<close> cannot raise: \<open>drop 1\<close> is the pop.
\<close>

definition add_to_context :: "GeminiBot \<Rightarrow> int \<Rightarrow> pystr \<Rightarrow> content \<Rightarrow> GeminiBot" where
  "add_to_context s user_id r c =
     (let (context, s1) = get_user_context s user_id;
          context1 = context @ [\<lparr>role = r, content = c\<rparr>];
          context2 = (if int (length context1) > max_context_length s1 * 2
                      then drop 1 context1 else context1)
      in s1\<lparr>user_contexts := (user_contexts s1)(user_id \<mapsto> context2)\<rparr>)"

definition clear_context :: "GeminiBot \<Rightarrow> int \<Rightarrow> GeminiBot" where
  "clear_context s user_id =
     (if user_contexts s user_id \<noteq> None
      then s\<lparr>user_contexts := (user_contexts s)(user_id \<mapsto> [])\<rparr> else s)"

text \<open>History(U): what reading the store for user U returns.\<close>

definition history :: "GeminiBot \<Rightarrow> int \<Rightarrow> turn list" where
  "history s user_id = fst (get_user_context s user_id)"

text \<open>The operations of the context store, and a run of them from a store.\<close>

datatype store_op = Get int | Append int pystr content | Clear int

fun store_step :: "GeminiBot \<Rightarrow> store_op \<Rightarrow> GeminiBot" where
  "store_step s (Get u) = snd (get_user_context s u)"
| "store_step s (Append u r c) = add_to_context s u r c"
| "store_step s (Clear u) = clear_context s u"

definition run_store :: "GeminiBot \<Rightarrow> store_op list \<Rightarrow> GeminiBot" where
  "run_store s ops = foldl store_step s ops"

section \<open>The content encoder\<close>

text \<open>The string literals of bot.py, as code points.\<close>

definition greeting :: pystr where
  "greeting = [1055, 1088, 1080, 1074, 1077, 1090, 33]"

definition pdf_note_head :: pystr where
  "pdf_note_head = [91, 80, 68, 70, 32, 1092, 1072, 1081, 1083, 32, 1087, 1086, 1083, 1091,
     1095, 1077, 1085, 44, 32, 1085, 1086, 32, 1090, 1077, 1082, 1089, 1090, 32, 1085, 1077,
     32, 1084, 1086, 1078, 1077, 1090, 32, 1073, 1099, 1090, 1100, 32, 1080, 1079, 1074, 1083,
     1077, 1095, 1077, 1085, 32, 1072, 1074, 1090, 1086, 1084, 1072, 1090, 1080, 1095, 1077,
     1089, 1082, 1080, 46, 32, 1056, 1072, 1079, 1084, 1077, 1088, 58, 32]"

definition pdf_note_tail :: pystr where
  "pdf_note_tail = [32, 1073, 1072, 1081, 1090, 93]"

definition file_label_head :: pystr where
  "file_label_head = [1057, 1086, 1076, 1077, 1088, 1078, 1080, 1084, 1086, 1077, 32, 1092,
     1072, 1081, 1083, 1072, 32, 40]"

definition file_label_tail :: pystr where
  "file_label_tail = [41, 58, 10, 10]"

definition ellipsis :: pystr where
  "ellipsis = [46, 46, 46]"

definition read_fail_head :: pystr where
  "read_fail_head = [91, 1053, 1077, 32, 1091, 1076, 1072, 1083, 1086, 1089, 1100, 32, 1087,
     1088, 1086, 1095, 1080, 1090, 1072, 1090, 1100, 32, 1092, 1072, 1081, 1083, 58, 32]"

text \<open>\<open>str(n)\<close> of an integer: its decimal digits, with a sign.\<close>

fun nat_digits :: "nat \<Rightarrow> pystr" where
  "nat_digits n = (if n < 10 then [48 + n] else nat_digits (n div 10) @ [48 + n mod 10])"

declare nat_digits.simps [simp del]

definition str_int :: "int \<Rightarrow> pystr" where
  "str_int i = (if i < 0 then 45 # nat_digits (nat (- i)) else nat_digits (nat i))"

text \<open>\<open>base64.b64encode(b).decode('utf-8')\<close>: the standard alphabet, padded with \<open>=\<close>.\<close>

definition b64_char :: "nat \<Rightarrow> nat" where
  "b64_char n =
     ascii ''ABCDEFGHIJKLMNOPQRSTUVWXYZabcdefghijklmnopqrstuvwxyz0123456789+/'' ! n"

fun b64encode :: "nat list \<Rightarrow> pystr" where
  "b64encode [] = []"
| "b64encode [a] = [b64_char (a div 4), b64_char (a mod 4 * 16), 61, 61]"
| "b64encode [a, b] =
     [b64_char (a div 4), b64_char (a mod 4 * 16 + b div 16), b64_char (b mod 16 * 4), 61]"
| "b64encode (a # b # c # bs) =
     [b64_char (a div 4), b64_char (a mod 4 * 16 + b div 16),
      b64_char (b mod 16 * 4 + c div 64), b64_char (c mod 64)] @ b64encode bs"

text \<open>
  \<open>encode_file_to_base64\<close>. Neither \<open>b64encode\<close> of a bytes value nor decoding its
  ASCII output raises, so the \<open>except\<close> clause, which returns \<open>None\<close>, is not reached.
\<close>

definition encode_file_to_base64 :: "bytes \<Rightarrow> pystr \<Rightarrow> pystr option" where
  "encode_file_to_base64 file_content mime_type =
     Some (ascii ''data:'' @ mime_type @ ascii '';base64,'' @ b64encode (map unat file_content))"

text \<open>
  \<open>bytes.decode('utf-8', errors=...)\<close> as CPython decodes: one step reads a code point
  or finds a malformed sequence, and says how many bytes it covers (an invalid start
  byte: 1; a bad continuation byte: the bytes before it; a sequence cut off by the end
  of the data: all that is left). Overlong forms, surrogates and code points above
  U+10FFFF are malformed.
\<close>

definition is_cont :: "nat \<Rightarrow> bool" where
  "is_cont b = (128 \<le> b \<and> b < 192)"

definition utf8_two :: "nat \<Rightarrow> nat list \<Rightarrow> nat option \<times> nat" where
  "utf8_two ch rest =
     (case rest of
        [] \<Rightarrow> (None, 1)
      | ch2 # _ \<Rightarrow>
          if is_cont ch2 then (Some ((ch - 192) * 64 + (ch2 - 128)), 2) else (None, 1))"

definition utf8_three :: "nat \<Rightarrow> nat list \<Rightarrow> nat option \<times> nat" where
  "utf8_three ch rest =
     (case rest of
        [] \<Rightarrow> (None, 1)
      | ch2 # rest2 \<Rightarrow>
          if is_cont ch2 then
            if (if ch2 < 160 then ch = 224 else ch = 237) then (None, 1)
            else (case rest2 of
                    [] \<Rightarrow> (None, 2)
                  | ch3 # _ \<Rightarrow>
                      if is_cont ch3
                      then (Some ((ch - 224) * 4096 + (ch2 - 128) * 64 + (ch3 - 128)), 3)
                      else (None, 2))
          else (None, 1))"

definition utf8_four :: "nat \<Rightarrow> nat list \<Rightarrow> nat option \<times> nat" where
  "utf8_four ch rest =
     (case rest of
        [] \<Rightarrow> (None, 1)
      | ch2 # rest2 \<Rightarrow>
          if is_cont ch2 then
            if (if ch2 < 144 then ch = 240 else ch = 244) then (None, 1)
            else (case rest2 of
                    [] \<Rightarrow> (None, 2)
                  | ch3 # rest3 \<Rightarrow>
                      if is_cont ch3 then
                        (case rest3 of
                           [] \<Rightarrow> (None, 3)
                         | ch4 # _ \<Rightarrow>
                             if is_cont ch4
                             then (Some ((ch - 240) * 262144 + (ch2 - 128) * 4096
                                         + (ch3 - 128) * 64 + (ch4 - 128)), 4)
                             else (None, 3))
                      else (None, 2))
          else (None, 1))"

definition utf8_first :: "nat \<Rightarrow> nat list \<Rightarrow> nat option \<times> nat" where
  "utf8_first ch rest =
     (if ch < 128 then (Some ch, 1)
      else if ch < 194 then (None, 1)
      else if ch < 224 then utf8_two ch rest
      else if ch < 240 then utf8_three ch rest
      else if ch < 245 then utf8_four ch rest
      else (None, 1))"

function utf8_scan :: "nat list \<Rightarrow> nat option list" where
  "utf8_scan [] = []"
| "utf8_scan (ch # rest) =
     (case utf8_first ch rest of (r, n) \<Rightarrow> r # utf8_scan (drop (n - 1) rest))"
  by pat_completeness auto
termination
  by (relation "measure length") auto

datatype errors = Ignore | Replace

text \<open>\<open>'ignore'\<close> drops each malformed sequence, \<open>'replace'\<close> puts U+FFFD for it.\<close>

definition decode_utf8 :: "errors \<Rightarrow> bytes \<Rightarrow> pystr" where
  "decode_utf8 errs b =
     (case errs of
        Ignore \<Rightarrow> concat (map (\<lambda>r. case r of None \<Rightarrow> [] | Some c \<Rightarrow> [c]) (utf8_scan (map unat b)))
      | Replace \<Rightarrow> map (\<lambda>r. case r of None \<Rightarrow> 65533 | Some c \<Rightarrow> c) (utf8_scan (map unat b)))"

text \<open>
  The \<open>try\<close> block of the file branch of \<open>prepare_message_content\<close>, up to the value of
  \<open>text_content\<close>. Nothing in it raises for a bytes value (\<open>errors='ignore'\<close> makes
  \<open>decode\<close> total), so it always returns.
\<close>

definition text_content_of :: "bytes \<Rightarrow> pystr \<Rightarrow> exn + pystr" where
  "text_content_of file_data mime_type =
     Inr (if mime_type = ascii ''application/pdf''
          then pdf_note_head @ str_int (int (length file_data)) @ pdf_note_tail
          else decode_utf8 Ignore file_data)"

definition prepare_message_content :: "pystr option \<Rightarrow> bytes option \<Rightarrow> pystr option \<Rightarrow> part list" where
  "prepare_message_content text file_data mime_type =
     (let content1 = (if truthy text then [TextPart (the text)] else []);
          content2 =
            (if truthy file_data \<and> truthy mime_type then
               (if startswith (the mime_type) (ascii ''image/'') then
                  (case encode_file_to_base64 (the file_data) (the mime_type) of
                     None \<Rightarrow> content1
                   | Some encoded_file \<Rightarrow>
                       if encoded_file \<noteq> [] then content1 @ [ImagePart encoded_file]
                       else content1)
                else
                  (case text_content_of (the file_data) (the mime_type) of
                     Inr text_content \<Rightarrow>
                       content1 @ [TextPart (file_label_head @ the mime_type @ file_label_tail
                                             @ take 4000 text_content @ ellipsis)]
                   | Inl e \<Rightarrow> content1 @ [TextPart (read_fail_head @ msg e @ ascii '']'')]))
             else content1)
      in if content2 \<noteq> [] then content2
         else [TextPart (if truthy text then the text else greeting)])"

text \<open>
  What the specification describes for a file that is neither an image nor a PDF:
  decode replacing undecodable bytes, keep the first 4000 characters, and put the label
  with the MIME type in front. Written from the specification's words, to compare
  \<open>prepare_message_content\<close> with.
\<close>

definition spec_file_part :: "bytes \<Rightarrow> pystr \<Rightarrow> part" where
  "spec_file_part file_data mime_type =
     TextPart (file_label_head @ mime_type @ file_label_tail
               @ take 4000 (decode_utf8 Replace file_data))"

text \<open>UTF-8 of a code point, for stating what valid UTF-8 input is.\<close>

definition is_scalar :: "nat \<Rightarrow> bool" where
  "is_scalar c = (c < 55296 \<or> (57344 \<le> c \<and> c < 1114112))"

definition utf8_encode1 :: "nat \<Rightarrow> nat list" where
  "utf8_encode1 c =
     (if c < 128 then [c]
      else if c < 2048 then [192 + c div 64, 128 + c mod 64]
      else if c < 65536 then [224 + c div 4096, 128 + c div 64 mod 64, 128 + c mod 64]
      else [240 + c div 262144, 128 + c div 4096 mod 64, 128 + c div 64 mod 64, 128 + c mod 64])"

definition utf8_encode :: "pystr \<Rightarrow> bytes" where
  "utf8_encode s = map of_nat (concat (map utf8_encode1 s))"

section \<open>The completion client\<close>

definition api_error_head :: pystr where
  "api_error_head = [10060, 32, 1054, 1096, 1080, 1073, 1082, 1072, 32, 65, 80, 73, 58, 32]"

definition timeout_msg :: pystr where
  "timeout_msg = [9200, 32, 1055, 1088, 1077, 1074, 1099, 1096, 1077, 1085, 1086, 32, 1074,
     1088, 1077, 1084, 1103, 32, 1086, 1078, 1080, 1076, 1072, 1085, 1080, 1103, 46, 32, 1055,
     1086, 1087, 1088, 1086, 1073, 1091, 1081, 1090, 1077, 32, 1077, 1097, 1077, 32, 1088,
     1072, 1079, 46]"

definition connection_msg :: pystr where
  "connection_msg = [127760, 32, 1054, 1096, 1080, 1073, 1082, 1072, 32, 1087, 1086, 1076,
     1082, 1083, 1102, 1095, 1077, 1085, 1080, 1103, 32, 1082, 32, 65, 80, 73, 46, 32, 1055,
     1088, 1086, 1074, 1077, 1088, 1100, 1090, 1077, 32, 1080, 1085, 1090, 1077, 1088, 1085,
     1077, 1090, 46]"

definition generic_error_head :: pystr where
  "generic_error_head = [10060, 32, 1055, 1088, 1086, 1080, 1079, 1086, 1096, 1083, 1072, 32,
     1086, 1096, 1080, 1073, 1082, 1072, 58, 32]"

text \<open>
  Subscripting a value of \<open>response.json()\<close>, with the exception Python raises where
  the value does not support it (messages as CPython 3.11 words them).
\<close>

definition quoted :: "pystr \<Rightarrow> pystr" where
  "quoted s = [39] @ s @ [39]"

fun type_name :: "json \<Rightarrow> pystr" where
  "type_name JNull = ascii ''NoneType''"
| "type_name (JBool _) = ascii ''bool''"
| "type_name (JInt _) = ascii ''int''"
| "type_name (JFloat _) = ascii ''float''"
| "type_name (JStr _) = ascii ''str''"
| "type_name (JArr _) = ascii ''list''"
| "type_name (JObj _) = ascii ''dict''"

definition not_subscriptable :: "json \<Rightarrow> exn" where
  "not_subscriptable v = Exn TypeError (quoted (type_name v) @ ascii '' object is not subscriptable'')"

text \<open>\<open>v[k]\<close> for a string key \<open>k\<close>.\<close>

fun getitem_key :: "json \<Rightarrow> pystr \<Rightarrow> exn + json" where
  "getitem_key (JObj kvs) k =
     (case map_of kvs k of None \<Rightarrow> Inl (Exn KeyError (quoted k)) | Some v \<Rightarrow> Inr v)"
| "getitem_key (JArr xs) k =
     Inl (Exn TypeError (ascii ''list indices must be integers or slices, not str''))"
| "getitem_key (JStr s) k =
     Inl (Exn TypeError (ascii ''string indices must be integers, not '' @ quoted (ascii ''str'')))"
| "getitem_key v k = Inl (not_subscriptable v)"

text \<open>\<open>v[0]\<close>. The keys of a JSON object are strings, so \<open>0\<close> is never one of them.\<close>

fun getitem_0 :: "json \<Rightarrow> exn + json" where
  "getitem_0 (JArr []) = Inl (Exn IndexError (ascii ''list index out of range''))"
| "getitem_0 (JArr (x # xs)) = Inr x"
| "getitem_0 (JStr []) = Inl (Exn IndexError (ascii ''string index out of range''))"
| "getitem_0 (JStr (c # cs)) = Inr (JStr [c])"
| "getitem_0 (JObj kvs) = Inl (Exn KeyError (ascii ''0''))"
| "getitem_0 v = Inl (not_subscriptable v)"

text \<open>\<open>result['choices'][0]['message']['content']\<close>\<close>

definition extract_reply :: "json \<Rightarrow> exn + json" where
  "extract_reply result =
     (case getitem_key result (ascii ''choices'') of
        Inl e \<Rightarrow> Inl e
      | Inr choices \<Rightarrow>
          (case getitem_0 choices of
             Inl e \<Rightarrow> Inl e
           | Inr choice \<Rightarrow>
               (case getitem_key choice (ascii ''message'') of
                  Inl e \<Rightarrow> Inl e
                | Inr message \<Rightarrow> getitem_key message (ascii ''content''))))"

text \<open>
  What \<open>requests.post\<close> does is given from outside: it raises, or it returns a response
  with its status code, its body text and what \<open>response.json()\<close> does on it (raise,
  or return the parsed value).
\<close>

record response =
  status_code :: int
  body_text :: pystr
  json_result :: "exn + json"

datatype http_result = Raises exn | Returns response

text \<open>
  The \<open>try\<close> block of \<open>call_gemini_api\<close>: the value returned or the exception raised,
  and the store as the block leaves it. The request holds a copy of the history and the
  new user turn; the store is written only by the two \<open>add_to_context\<close> calls (and by
  \<open>get_user_context\<close> for a user it has not seen).
\<close>

definition call_gemini_api_try ::
  "(turn list \<Rightarrow> http_result) \<Rightarrow> GeminiBot \<Rightarrow> int \<Rightarrow> pystr option \<Rightarrow> bytes option
     \<Rightarrow> pystr option \<Rightarrow> (exn + json) \<times> GeminiBot" where
  "call_gemini_api_try post s user_id text file_data mime_type =
     (let (context, s1) = get_user_context s user_id;
          message_content = prepare_message_content text file_data mime_type;
          messages = context @ [\<lparr>role = ascii ''user'', content = Parts message_content\<rparr>]
      in case post messages of
           Raises e \<Rightarrow> (Inl e, s1)
         | Returns response \<Rightarrow>
             if status_code response = 200 then
               (case json_result response of
                  Inl e \<Rightarrow> (Inl e, s1)
                | Inr result \<Rightarrow>
                    (case extract_reply result of
                       Inl e \<Rightarrow> (Inl e, s1)
                     | Inr ai_response \<Rightarrow>
                         (Inr ai_response,
                          add_to_context
                            (add_to_context s1 user_id (ascii ''user'') (Parts message_content))
                            user_id (ascii ''assistant'') (Reply ai_response))))
             else
               (Inr (JStr (api_error_head @ str_int (status_code response) @ [10]
                           @ body_text response)), s1))"

text \<open>The \<open>except\<close> clauses turn every exception of the block into a string.\<close>

definition call_gemini_api ::
  "(turn list \<Rightarrow> http_result) \<Rightarrow> GeminiBot \<Rightarrow> int \<Rightarrow> pystr option \<Rightarrow> bytes option
     \<Rightarrow> pystr option \<Rightarrow> json \<times> GeminiBot" where
  "call_gemini_api post s user_id text file_data mime_type =
     (case call_gemini_api_try post s user_id text file_data mime_type of
        (Inr v, s') \<Rightarrow> (v, s')
      | (Inl e, s') \<Rightarrow>
          (case kind e of
             Timeout \<Rightarrow> (JStr timeout_msg, s')
           | ConnectionError \<Rightarrow> (JStr connection_msg, s')
           | _ \<Rightarrow> (JStr (generic_error_head @ msg e), s')))"

text \<open>
  A call fails when \<open>requests.post\<close> raises, when the status is not 200, when
  \<open>response.json()\<close> raises, or when the subscripts into the parsed value raise.
\<close>

definition failure_outcome :: "http_result \<Rightarrow> bool" where
  "failure_outcome r =
     (case r of
        Raises e \<Rightarrow> True
      | Returns response \<Rightarrow>
          if status_code response = 200 then
            (case json_result response of
               Inl e \<Rightarrow> True
             | Inr result \<Rightarrow> (case extract_reply result of Inl e \<Rightarrow> True | Inr v \<Rightarrow> False))
          else True)"

text \<open>A parsed body of the expected shape, with \<open>v\<close> at \<open>choices[0].message.content\<close>.\<close>

definition sample_reply :: "json \<Rightarrow> json" where
  "sample_reply v =
     JObj [(ascii ''choices'', JArr [JObj [(ascii ''message'', JObj [(ascii ''content'', v)])]])]"

text \<open>The request \<open>call_gemini_api\<close> posts for a user: the history, then the new turn.\<close>

definition request_messages ::
  "GeminiBot \<Rightarrow> int \<Rightarrow> pystr option \<Rightarrow> bytes option \<Rightarrow> pystr option \<Rightarrow> turn list" where
  "request_messages s user_id text file_data mime_type =
     history s user_id
     @ [\<lparr>role = ascii ''user'',
         content = Parts (prepare_message_content text file_data mime_type)\<rparr>]"

section \<open>The handlers\<close>

definition too_big_msg :: pystr where
  "too_big_msg = [10060, 32, 1060, 1072, 1081, 1083, 32, 1089, 1083, 1080, 1096, 1082, 1086,
     1084, 32, 1073, 1086, 1083, 1100, 1096, 1086, 1081, 46, 32, 1052, 1072, 1082, 1089, 1080,
     1084, 1091, 1084, 32, 50, 48, 77, 66, 46]"

definition unknown_type_msg :: pystr where
  "unknown_type_msg = [10060, 32, 1053, 1077, 32, 1091, 1076, 1072, 1083, 1086, 1089, 1100, 32,
     1086, 1087, 1088, 1077, 1076, 1077, 1083, 1080, 1090, 1100, 32, 1090, 1080, 1087, 32,
     1092, 1072, 1081, 1083, 1072, 46]"

definition unsupported_head :: pystr where
  "unsupported_head = [10060, 32, 1058, 1080, 1087, 32, 1092, 1072, 1081, 1083, 1072, 32, 1085,
     1077, 32, 1087, 1086, 1076, 1076, 1077, 1088, 1078, 1080, 1074, 1072, 1077, 1090, 1089,
     1103, 46, 10, 10, 42, 42, 1055, 1086, 1076, 1076, 1077, 1088, 1078, 1080, 1074, 1072,
     1077, 1084, 1099, 1077, 32, 1092, 1086, 1088, 1084, 1072, 1090, 1099, 58, 42, 42, 10]"

definition analyze_head :: pystr where
  "analyze_head = [1055, 1088, 1086, 1072, 1085, 1072, 1083, 1080, 1079, 1080, 1088, 1091,
     1081, 32, 1089, 1086, 1076, 1077, 1088, 1078, 1080, 1084, 1086, 1077, 32, 1092, 1072,
     1081, 1083, 1072, 32]"

definition file_error_head :: pystr where
  "file_error_head = [10060, 32, 1054, 1096, 1080, 1073, 1082, 1072, 32, 1087, 1088, 1080, 32,
     1086, 1073, 1088, 1072, 1073, 1086, 1090, 1082, 1077, 32, 1092, 1072, 1081, 1083, 1072,
     58, 32]"

definition SUPPORTED_DOCUMENT_TYPES :: "pystr list" where
  "SUPPORTED_DOCUMENT_TYPES =
     [ascii ''text/plain'', ascii ''application/pdf'', ascii ''application/json'',
      ascii ''text/csv'', ascii ''application/msword'', ascii ''text/html'']"

fun join :: "pystr \<Rightarrow> pystr list \<Rightarrow> pystr" where
  "join sep [] = []"
| "join sep [x] = x"
| "join sep (x # y # ys) = x @ sep @ join sep (y # ys)"

text \<open>
  What a handler does to the outside is the list of calls it makes, in order: the
  methods of \<open>bot\<close> and \<open>gemini_bot.call_gemini_api\<close>. The calls that send are taken to
  return; \<open>get_file\<close> and \<open>download_file\<close> return or raise as the platform says.
\<close>

datatype event =
    SendChatAction int
  | GetFile pystr
  | DownloadFile "pystr option"
  | CallCompletion int "pystr option" "bytes option" "pystr option"
  | SendMessage int json

text \<open>\<open>len(v)\<close> and \<open>v[i:j]\<close> of a returned value.\<close>

fun py_len :: "json \<Rightarrow> exn + nat" where
  "py_len (JStr s) = Inr (length s)"
| "py_len (JArr xs) = Inr (length xs)"
| "py_len (JObj kvs) = Inr (length kvs)"
| "py_len v = Inl (Exn TypeError (ascii ''object of type '' @ quoted (type_name v) @ ascii '' has no len()''))"

fun py_slice :: "json \<Rightarrow> nat \<Rightarrow> nat \<Rightarrow> exn + json" where
  "py_slice (JStr s) i j = Inr (JStr (take (j - i) (drop i s)))"
| "py_slice (JArr xs) i j = Inr (JArr (take (j - i) (drop i xs)))"
| "py_slice (JObj kvs) i j = Inl (Exn TypeError (ascii ''unhashable type: '' @ quoted (ascii ''slice'')))"
| "py_slice v i j = Inl (not_subscriptable v)"

text \<open>
  The loop \<open>for i in range(0, len(response), 4096): bot.send_message(chat, response[i:i+4096])\<close>,
  from index \<open>i\<close> on: the exception that ended it, if any, and the messages sent.
\<close>

function send_chunks :: "int \<Rightarrow> json \<Rightarrow> nat \<Rightarrow> nat \<Rightarrow> exn option \<times> event list" where
  "send_chunks chat response i n =
     (if i < n then
        (case py_slice response i (i + 4096) of
           Inl e \<Rightarrow> (Some e, [])
         | Inr chunk \<Rightarrow>
             (case send_chunks chat response (i + 4096) n of
                (r, evs) \<Rightarrow> (r, SendMessage chat chunk # evs)))
      else (None, []))"
  by pat_completeness auto
termination
  by (relation "measure (\<lambda>(chat, response, i, n). n - i)") auto

declare send_chunks.simps [simp del]

text \<open>The relay step that ends \<open>text_handler\<close>, \<open>photo_handler\<close> and \<open>document_handler\<close>.\<close>

definition relay :: "int \<Rightarrow> json \<Rightarrow> exn option \<times> event list" where
  "relay chat response =
     (case py_len response of
        Inl e \<Rightarrow> (Some e, [])
      | Inr n \<Rightarrow>
          if n > 4096 then send_chunks chat response 0 n
          else (None, [SendMessage chat response]))"

record document =
  file_id :: pystr
  doc_mime_type :: "pystr option"
  file_name :: "pystr option"

record message =
  chat_id :: int
  from_user_id :: int
  msg_text :: "pystr option"
  caption :: "pystr option"
  document :: document

record file_info =
  file_size :: "int option"
  file_path :: "pystr option"

record platform =
  get_file :: "pystr \<Rightarrow> exn + file_info"
  download_file :: "pystr option \<Rightarrow> exn + bytes"
  guess_type :: "pystr \<Rightarrow> pystr option"
  requests_post :: "turn list \<Rightarrow> http_result"

definition text_handler :: "platform \<Rightarrow> GeminiBot \<Rightarrow> message \<Rightarrow> event list \<times> GeminiBot" where
  "text_handler pf s m =
     (let (response, s') = call_gemini_api (requests_post pf) s (from_user_id m) (msg_text m) None None;
          ev = [SendChatAction (chat_id m), CallCompletion (from_user_id m) (msg_text m) None None]
      in case relay (chat_id m) response of
           (None, evs) \<Rightarrow> (ev @ evs, s')
         | (Some e, evs) \<Rightarrow>
             (ev @ evs @ [SendMessage (chat_id m) (JStr (generic_error_head @ msg e))], s'))"

text \<open>
  \<open>message.document.mime_type or mimetypes.guess_type(message.document.file_name)[0]\<close>;
  \<open>guess_type(None)\<close> raises.
\<close>

definition resolve_mime_type :: "platform \<Rightarrow> document \<Rightarrow> exn + pystr option" where
  "resolve_mime_type pf d =
     (if truthy (doc_mime_type d) then Inr (doc_mime_type d)
      else (case file_name d of
              None \<Rightarrow> Inl (Exn TypeError (ascii ''expected str, bytes or os.PathLike object, not NoneType''))
            | Some name \<Rightarrow> Inr (guess_type pf name)))"

definition str_opt :: "pystr option \<Rightarrow> pystr" where
  "str_opt x = (case x of None \<Rightarrow> ascii ''None'' | Some s \<Rightarrow> s)"

text \<open>The \<open>try\<close> block of \<open>document_handler\<close>.\<close>

definition document_handler_try ::
  "platform \<Rightarrow> GeminiBot \<Rightarrow> message \<Rightarrow> exn option \<times> event list \<times> GeminiBot" where
  "document_handler_try pf s m =
     (let chat = chat_id m;
          ev0 = [SendChatAction chat, GetFile (file_id (document m))]
      in case get_file pf (file_id (document m)) of
           Inl e \<Rightarrow> (Some e, ev0, s)
         | Inr info \<Rightarrow>
             (case file_size info of
                None \<Rightarrow>
                  (Some (Exn TypeError (quoted (ascii ''>'')
                      @ ascii '' not supported between instances of '' @ quoted (ascii ''NoneType'')
                      @ ascii '' and '' @ quoted (ascii ''int''))), ev0, s)
              | Some sz \<Rightarrow>
                  if sz > 20 * 1024 * 1024
                  then (None, ev0 @ [SendMessage chat (JStr too_big_msg)], s)
                  else
                    (case resolve_mime_type pf (document m) of
                       Inl e \<Rightarrow> (Some e, ev0, s)
                     | Inr mime_type \<Rightarrow>
                         if \<not> truthy mime_type
                         then (None, ev0 @ [SendMessage chat (JStr unknown_type_msg)], s)
                         else if the mime_type \<notin> set SUPPORTED_DOCUMENT_TYPES
                                 \<and> \<not> startswith (the mime_type) (ascii ''text/'')
                         then (None,
                               ev0 @ [SendMessage chat
                                        (JStr (unsupported_head
                                               @ join (ascii '', '') SUPPORTED_DOCUMENT_TYPES))],
                               s)
                         else
                           (case download_file pf (file_path info) of
                              Inl e \<Rightarrow> (Some e, ev0 @ [DownloadFile (file_path info)], s)
                            | Inr file_data \<Rightarrow>
                                (let cap = (if truthy (caption m) then the (caption m)
                                            else analyze_head @ str_opt (file_name (document m)));
                                     (response, s') =
                                       call_gemini_api (requests_post pf) s (from_user_id m)
                                         (Some cap) (Some file_data) mime_type;
                                     ev1 = ev0 @ [DownloadFile (file_path info),
                                                  CallCompletion (from_user_id m)
                                                    (Some cap) (Some file_data) mime_type]
                                 in case relay chat response of
                                      (r, evs) \<Rightarrow> (r, ev1 @ evs, s'))))))"

definition document_handler :: "platform \<Rightarrow> GeminiBot \<Rightarrow> message \<Rightarrow> event list \<times> GeminiBot" where
  "document_handler pf s m =
     (case document_handler_try pf s m of
        (None, evs, s') \<Rightarrow> (evs, s')
      | (Some e, evs, s') \<Rightarrow>
          (evs @ [SendMessage (chat_id m) (JStr (file_error_head @ msg e))], s'))"

text \<open>The calls of a handler that reach the completion client or download a file.\<close>

fun is_completion_call :: "event \<Rightarrow> bool" where
  "is_completion_call (CallCompletion u t f mt) = True"
| "is_completion_call ev = False"

fun is_download :: "event \<Rightarrow> bool" where
  "is_download (DownloadFile p) = True"
| "is_download ev = False"

text \<open>A platform and a document update to run the handler on.\<close>

definition sample_platform :: "int \<Rightarrow> platform" where
  "sample_platform sz =
     \<lparr>get_file = (\<lambda>fid. Inr \<lparr>file_size = Some sz, file_path = Some (ascii ''documents/f'')\<rparr>),
      download_file = (\<lambda>path. Inr [104, 105]),
      guess_type = (\<lambda>name. None),
      requests_post = (\<lambda>messages. Raises (Exn Timeout []))\<rparr>"

definition sample_document :: "pystr option \<Rightarrow> message" where
  "sample_document mt =
     \<lparr>chat_id = 5, from_user_id = 7, msg_text = None, caption = None,
      document = \<lparr>file_id = ascii ''F1'', doc_mime_type = mt, file_name = Some (ascii ''f'')\<rparr>\<rparr>"

section \<open>Properties of the context store\<close>

lemma history_get [simp]: "history (snd (get_user_context s u)) v = history s v"
  by (simp add: history_def get_user_context_def split: option.splits)

lemma max_get [simp]: "max_context_length (snd (get_user_context s u)) = max_context_length s"
  by (simp add: get_user_context_def split: option.splits)

lemma history_add:
  "history (add_to_context s u r c) v =
     (if v = u
      then (let h = history s u @ [\<lparr>role = r, content = c\<rparr>]
            in if int (length h) > max_context_length s * 2 then drop 1 h else h)
      else history s v)"
  by (simp add: history_def add_to_context_def get_user_context_def Let_def
      split: option.splits)

lemma max_add [simp]: "max_context_length (add_to_context s u r c) = max_context_length s"
  by (simp add: add_to_context_def get_user_context_def Let_def split: option.splits)

lemma history_clear:
  "history (clear_context s u) v = (if v = u then [] else history s v)"
  by (simp add: history_def clear_context_def get_user_context_def split: option.splits)

lemma max_clear [simp]: "max_context_length (clear_context s u) = max_context_length s"
  by (simp add: clear_context_def)

lemma max_step [simp]: "max_context_length (store_step s x) = max_context_length s"
  by (cases x) simp_all

lemma max_run [simp]: "max_context_length (run_store s ops) = max_context_length s"
  unfolding run_store_def by (induction ops arbitrary: s) simp_all

lemma step_bound:
  assumes "0 \<le> max_context_length s"
    and "int (length (history s v)) \<le> 2 * max_context_length s"
  shows "int (length (history (store_step s x) v)) \<le> 2 * max_context_length s"
proof (cases x)
  case (Get u)
  with assms show ?thesis by simp
next
  case (Append u r c)
  with assms show ?thesis by (auto simp: history_add Let_def)
next
  case (Clear u)
  with assms show ?thesis by (simp add: history_clear)
qed

lemma run_bound:
  assumes "0 \<le> max_context_length s"
    and "int (length (history s v)) \<le> 2 * max_context_length s"
  shows "int (length (history (run_store s ops) v)) \<le> 2 * max_context_length s"
  using assms unfolding run_store_def
proof (induction ops arbitrary: s)
  case Nil
  then show ?case by simp
next
  case (Cons x xs)
  have "int (length (history (store_step s x) v)) \<le> 2 * max_context_length (store_step s x)"
    using step_bound [OF Cons.prems] by simp
  moreover have "0 \<le> max_context_length (store_step s x)"
    using Cons.prems by simp
  ultimately show ?case
    using Cons.IH [of "store_step s x"] by simp
qed

lemma history_init [simp]: "history GeminiBot_init v = []"
  by (simp add: history_def get_user_context_def GeminiBot_init_def)

lemma max_init [simp]: "max_context_length GeminiBot_init = 10"
  by (simp add: GeminiBot_init_def)

lemma reachable_bound:
  "length (history (run_store GeminiBot_init ops) v) \<le> 20"
  using run_bound [of GeminiBot_init v ops] by simp

text \<open>
  C1. Starting from the empty store of \<open>GeminiBot.__init__\<close>, after every finite sequence
  of get, append and clear operations the history of every user holds at most
  \<open>2 * max_context_length\<close> turns. An append in such a store pushes one turn and leaves
  the pushed list without as many of its oldest turns as it exceeds the bound by, which
  is again within the bound.
\<close>

theorem C1_history_bounded:
  "int (length (history (run_store GeminiBot_init ops) u))
     \<le> 2 * max_context_length (run_store GeminiBot_init ops)
   \<and> history (add_to_context (run_store GeminiBot_init ops) u r c) u
     = drop (length (history (run_store GeminiBot_init ops) u @ [\<lparr>role = r, content = c\<rparr>])
               - nat (2 * max_context_length (run_store GeminiBot_init ops)))
         (history (run_store GeminiBot_init ops) u @ [\<lparr>role = r, content = c\<rparr>])
   \<and> int (length (history (add_to_context (run_store GeminiBot_init ops) u r c) u))
     \<le> 2 * max_context_length (run_store GeminiBot_init ops)"
proof -
  let ?s = "run_store GeminiBot_init ops"
  have b: "length (history ?s u) \<le> 20" by (rule reachable_bound)
  have m: "max_context_length ?s = 10" by simp
  have "length (history ?s u) = 20 \<or> length (history ?s u) < 20" using b by arith
  then show ?thesis
  proof
    assume "length (history ?s u) = 20"
    then show ?thesis by (simp add: history_add Let_def m)
  next
    assume "length (history ?s u) < 20"
    then show ?thesis by (simp add: history_add Let_def m)
  qed
qed

text \<open>
  C8. In every store, clearing the history of a user and then reading it returns the
  empty list.
\<close>

theorem C8_clear_then_get:
  "fst (get_user_context (clear_context s u) u) = []"
  by (simp add: clear_context_def get_user_context_def split: option.splits)

section \<open>Properties of the content encoder\<close>

text \<open>Decoding the UTF-8 encoding of a string gives the string back.\<close>

lemma first1: "ch < 128 \<Longrightarrow> utf8_first ch r = (Some ch, 1)"
  by (simp add: utf8_first_def)

lemma first2:
  assumes "194 \<le> ch" "ch < 224" "is_cont ch2"
  shows "utf8_first ch (ch2 # r) = (Some ((ch - 192) * 64 + (ch2 - 128)), 2)"
proof -
  have "\<not> ch < 128" "\<not> ch < 194" using assms by arith+
  then have "utf8_first ch (ch2 # r) = utf8_two ch (ch2 # r)"
    using assms(2) by (simp only: utf8_first_def if_False if_True)
  then show ?thesis using assms(3) by (simp add: utf8_two_def)
qed

lemma first3:
  assumes "224 \<le> ch" "ch < 240" "is_cont ch2" "is_cont ch3"
    and "ch = 224 \<Longrightarrow> 160 \<le> ch2" "ch = 237 \<Longrightarrow> ch2 < 160"
  shows "utf8_first ch (ch2 # ch3 # r) =
     (Some ((ch - 224) * 4096 + (ch2 - 128) * 64 + (ch3 - 128)), 3)"
proof -
  have "\<not> ch < 128" "\<not> ch < 194" "\<not> ch < 224" using assms by arith+
  then have "utf8_first ch (ch2 # ch3 # r) = utf8_three ch (ch2 # ch3 # r)"
    using assms(2) by (simp only: utf8_first_def if_False if_True)
  moreover have "\<not> (if ch2 < 160 then ch = 224 else ch = 237)"
    using assms(5,6) by (cases "ch2 < 160") auto
  ultimately show ?thesis using assms(3,4) by (simp add: utf8_three_def)
qed

lemma first4:
  assumes "240 \<le> ch" "ch < 245" "is_cont ch2" "is_cont ch3" "is_cont ch4"
    and "ch = 240 \<Longrightarrow> 144 \<le> ch2" "ch = 244 \<Longrightarrow> ch2 < 144"
  shows "utf8_first ch (ch2 # ch3 # ch4 # r) =
     (Some ((ch - 240) * 262144 + (ch2 - 128) * 4096 + (ch3 - 128) * 64 + (ch4 - 128)), 4)"
proof -
  have "\<not> ch < 128" "\<not> ch < 194" "\<not> ch < 224" "\<not> ch < 240" using assms by arith+
  then have "utf8_first ch (ch2 # ch3 # ch4 # r) = utf8_four ch (ch2 # ch3 # ch4 # r)"
    using assms(2) by (simp only: utf8_first_def if_False if_True)
  moreover have "\<not> (if ch2 < 144 then ch = 240 else ch = 244)"
    using assms(6,7) by (cases "ch2 < 144") auto
  ultimately show ?thesis using assms(3,4,5) by (simp add: utf8_four_def)
qed

lemma cont_mod: "is_cont (128 + n mod 64)"
  by (simp add: is_cont_def)

lemma split3: "(c::nat) div 4096 * 4096 + c div 64 mod 64 * 64 + c mod 64 = c"
proof -
  have "c div 64 div 64 = c div 4096" by (simp add: div_mult2_eq)
  then have "c div 4096 * 64 + c div 64 mod 64 = c div 64"
    by (metis div_mult_mod_eq)
  then have "(c div 4096 * 64 + c div 64 mod 64) * 64 + c mod 64 = c" by simp
  then show ?thesis by (simp add: algebra_simps)
qed

lemma split4:
  "(c::nat) div 262144 * 262144 + c div 4096 mod 64 * 4096 + c div 64 mod 64 * 64 + c mod 64 = c"
proof -
  have "c div 4096 div 64 = c div 262144" by (simp add: div_mult2_eq)
  then have "c div 262144 * 64 + c div 4096 mod 64 = c div 4096"
    by (metis div_mult_mod_eq)
  then have "(c div 262144 * 64 + c div 4096 mod 64) * 4096 + c div 64 mod 64 * 64 + c mod 64
     = c div 4096 * 4096 + c div 64 mod 64 * 64 + c mod 64" by simp
  then show ?thesis using split3 [of c] by (simp add: algebra_simps)
qed

lemma lead3_low:
  assumes "2048 \<le> (c::nat)" "c div 4096 = 0"
  shows "32 \<le> c div 64 mod 64"
proof -
  have "c < 4096" using assms(2) by simp
  then have "c div 64 < 64" by simp
  then have "c div 64 mod 64 = c div 64" by simp
  moreover have "32 \<le> c div 64" using assms(1) by simp
  ultimately show ?thesis by simp
qed

lemma lead3_surrogate:
  assumes "(c::nat) div 4096 = 13" "c < 55296"
  shows "c div 64 mod 64 < 32"
proof -
  have "c div 64 div 64 = 13" using assms(1) by (simp add: div_mult2_eq)
  then have "c div 64 = 13 * 64 + c div 64 mod 64"
    by (metis div_mult_mod_eq)
  moreover have "c div 64 < 864" using assms(2) by simp
  ultimately show ?thesis by arith
qed

lemma lead4_low:
  assumes "65536 \<le> (c::nat)" "c div 262144 = 0"
  shows "16 \<le> c div 4096 mod 64"
proof -
  have "c < 262144" using assms(2) by simp
  then have "c div 4096 < 64" by simp
  then have "c div 4096 mod 64 = c div 4096" by simp
  moreover have "16 \<le> c div 4096" using assms(1) by simp
  ultimately show ?thesis by simp
qed

lemma lead4_high:
  assumes "(c::nat) div 262144 = 4" "c < 1114112"
  shows "c div 4096 mod 64 < 16"
proof -
  have "c div 4096 div 64 = 4" using assms(1) by (simp add: div_mult2_eq)
  then have "c div 4096 = 4 * 64 + c div 4096 mod 64"
    by (metis div_mult_mod_eq)
  moreover have "c div 4096 < 272" using assms(2) by simp
  ultimately show ?thesis by arith
qed

lemma scan1: "c < 128 \<Longrightarrow> utf8_scan (utf8_encode1 c @ rest) = Some c # utf8_scan rest"
  by (simp add: utf8_encode1_def first1)

lemma scan2:
  assumes "128 \<le> c" "c < 2048"
  shows "utf8_scan (utf8_encode1 c @ rest) = Some c # utf8_scan rest"
proof -
  have e: "utf8_encode1 c = [192 + c div 64, 128 + c mod 64]"
    using assms by (simp add: utf8_encode1_def)
  have r: "194 \<le> 192 + c div 64" "192 + c div 64 < 224" using assms by arith+
  have v: "(192 + c div 64 - 192) * 64 + (128 + c mod 64 - 128) = c" by simp
  have f: "utf8_first (192 + c div 64) ((128 + c mod 64) # rest)
      = (Some ((192 + c div 64 - 192) * 64 + (128 + c mod 64 - 128)), 2)"
    by (rule first2 [OF r cont_mod])
  show ?thesis
    unfolding e using f v by simp
qed

lemma scan3:
  assumes "2048 \<le> c" "c < 65536" "is_scalar c"
  shows "utf8_scan (utf8_encode1 c @ rest) = Some c # utf8_scan rest"
proof -
  have e: "utf8_encode1 c = [224 + c div 4096, 128 + c div 64 mod 64, 128 + c mod 64]"
    using assms by (simp add: utf8_encode1_def)
  have r: "224 \<le> 224 + c div 4096" "224 + c div 4096 < 240" using assms by arith+
  have a: "224 + c div 4096 = 224 \<Longrightarrow> 160 \<le> 128 + c div 64 mod 64"
    using lead3_low [OF assms(1)] by simp
  have b: "128 + c div 64 mod 64 < 160" if h: "224 + c div 4096 = 237"
  proof -
    have d: "c div 4096 = 13" using h by simp
    have "\<not> 57344 \<le> c" using d assms(2) by simp
    then have "c < 55296" using assms(3) by (simp add: is_scalar_def)
    then show ?thesis using lead3_surrogate [OF d] by simp
  qed
  have v: "(224 + c div 4096 - 224) * 4096 + (128 + c div 64 mod 64 - 128) * 64
           + (128 + c mod 64 - 128) = c"
    using split3 [of c] by simp
  have f: "utf8_first (224 + c div 4096) ((128 + c div 64 mod 64) # (128 + c mod 64) # rest)
      = (Some ((224 + c div 4096 - 224) * 4096 + (128 + c div 64 mod 64 - 128) * 64
           + (128 + c mod 64 - 128)), 3)"
    by (rule first3 [OF r cont_mod cont_mod a b])
  show ?thesis
    unfolding e using f v by simp
qed

lemma scan4:
  assumes "65536 \<le> c" "c < 1114112"
  shows "utf8_scan (utf8_encode1 c @ rest) = Some c # utf8_scan rest"
proof -
  have e: "utf8_encode1 c =
      [240 + c div 262144, 128 + c div 4096 mod 64, 128 + c div 64 mod 64, 128 + c mod 64]"
    using assms by (simp add: utf8_encode1_def)
  have r: "240 \<le> 240 + c div 262144" "240 + c div 262144 < 245" using assms by arith+
  have a: "240 + c div 262144 = 240 \<Longrightarrow> 144 \<le> 128 + c div 4096 mod 64"
    using lead4_low [OF assms(1)] by simp
  have b: "240 + c div 262144 = 244 \<Longrightarrow> 128 + c div 4096 mod 64 < 144"
    using lead4_high [OF _ assms(2)] by simp
  have v: "(240 + c div 262144 - 240) * 262144 + (128 + c div 4096 mod 64 - 128) * 4096
           + (128 + c div 64 mod 64 - 128) * 64 + (128 + c mod 64 - 128) = c"
    using split4 [of c] by simp
  have f: "utf8_first (240 + c div 262144)
        ((128 + c div 4096 mod 64) # (128 + c div 64 mod 64) # (128 + c mod 64) # rest)
      = (Some ((240 + c div 262144 - 240) * 262144 + (128 + c div 4096 mod 64 - 128) * 4096
           + (128 + c div 64 mod 64 - 128) * 64 + (128 + c mod 64 - 128)), 4)"
    by (rule first4 [OF r cont_mod cont_mod cont_mod a b])
  show ?thesis
    unfolding e using f v by simp
qed

lemma utf8_scan_encode1:
  assumes "is_scalar c"
  shows "utf8_scan (utf8_encode1 c @ rest) = Some c # utf8_scan rest"
proof -
  have "c < 1114112" using assms by (auto simp: is_scalar_def)
  then consider "c < 128" | "128 \<le> c" "c < 2048" | "2048 \<le> c" "c < 65536"
    | "65536 \<le> c" "c < 1114112" by linarith
  then show ?thesis
  proof cases
    case 1 then show ?thesis by (rule scan1)
  next
    case 2 then show ?thesis by (rule scan2)
  next
    case 3 then show ?thesis using assms by (rule scan3)
  next
    case 4 then show ?thesis by (rule scan4)
  qed
qed

lemma utf8_scan_encode:
  "list_all is_scalar s \<Longrightarrow> utf8_scan (concat (map utf8_encode1 s)) = map Some s"
  by (induction s) (simp_all add: utf8_scan_encode1)

lemma utf8_encode1_byte:
  assumes "is_scalar c" "b \<in> set (utf8_encode1 c)"
  shows "b < 256"
proof -
  have "c < 1114112" using assms(1) by (auto simp: is_scalar_def)
  then show ?thesis using assms(2)
    by (auto simp: utf8_encode1_def split: if_splits)
qed

lemma unat_utf8_encode:
  assumes "list_all is_scalar s"
  shows "map unat (utf8_encode s) = concat (map utf8_encode1 s)"
proof -
  have lt: "b < 256" if "b \<in> set (concat (map utf8_encode1 s))" for b
    using that assms utf8_encode1_byte by (auto simp: list_all_iff)
  have "map (\<lambda>b. unat (of_nat b :: 8 word)) (concat (map utf8_encode1 s))
      = concat (map utf8_encode1 s)"
    by (rule map_idI) (simp add: unat_of_nat lt)
  then show ?thesis by (simp add: utf8_encode_def comp_def)
qed

lemma decode_utf8_encode:
  "list_all is_scalar s \<Longrightarrow> decode_utf8 Ignore (utf8_encode s) = s"
  by (simp add: decode_utf8_def unat_utf8_encode utf8_scan_encode comp_def)


text \<open>Facts about the MIME type \<open>text/plain\<close> and two sample files, for the examples.\<close>

lemma text_plain_nonempty: "ascii ''text/plain'' \<noteq> []"
  by (simp add: ascii_def)

lemma text_plain_not_image: "\<not> startswith (ascii ''text/plain'') (ascii ''image/'')"
  by (simp add: startswith_def ascii_def)

lemma text_plain_not_pdf: "ascii ''text/plain'' \<noteq> ascii ''application/pdf''"
  by (simp add: ascii_def)

lemma decode_ignore_FF_41: "decode_utf8 Ignore [255, 65] = [65]"
  by (simp add: decode_utf8_def utf8_first_def)

lemma decode_replace_FF_41: "decode_utf8 Replace [255, 65] = [65533, 65]"
  by (simp add: decode_utf8_def utf8_first_def)

text \<open>Empty file bytes are false in the guard of the file branch: no part is made of them.\<close>

lemma empty_file_ignored:
  "prepare_message_content text (Some []) mime_type
     = (if truthy text then [TextPart (the text)] else [TextPart greeting])"
  by (simp add: prepare_message_content_def)

text \<open>
  C9. With no text and no file bytes the encoder returns exactly one part, the text
  part holding the default greeting, whatever the MIME type argument is; an empty text
  counts as no text.
\<close>

theorem C9_default_greeting:
  "prepare_message_content None None mime_type = [TextPart greeting]
   \<and> prepare_message_content (Some []) None mime_type = [TextPart greeting]"
  by (simp add: prepare_message_content_def)

text \<open>
  C10. When file bytes are given and the MIME type is \<open>None\<close> or empty, the encoder
  makes no part from the file: the result is the text part alone when a non-empty text
  was given, and the default greeting part otherwise.
\<close>

theorem C10_file_without_mime_ignored:
  assumes "mime_type = None \<or> mime_type = Some []"
  shows "prepare_message_content text (Some file_data) mime_type
     = (if truthy text then [TextPart (the text)] else [TextPart greeting])"
  using assms by (auto simp: prepare_message_content_def)

theorem C10_witness:
  "prepare_message_content (Some (ascii ''hi'')) (Some [1, 2, 3]) None = [TextPart (ascii ''hi'')]
   \<and> prepare_message_content None (Some [1, 2, 3]) (Some []) = [TextPart greeting]"
  using C10_file_without_mime_ignored [of None "Some (ascii ''hi'')" "[1, 2, 3]"]
    C10_file_without_mime_ignored [of "Some []" None "[1, 2, 3]"]
  by (simp add: ascii_def)

text \<open>
  C6, as the code has it. For non-empty file bytes whose non-empty MIME type neither
  starts with \<open>image/\<close> nor is \<open>application/pdf\<close>, the encoder decodes the bytes as
  UTF-8 dropping (not replacing) every malformed sequence, keeps the first 4000
  characters, and emits, after the text part if there is one, a text part made of the
  label with the MIME type, those characters and a closing \<open>...\<close>. For the UTF-8
  encoding of a string the decoded text is that string, so the extracted content is
  its first 4000 characters.
\<close>

theorem C6_text_file_part:
  assumes "file_data \<noteq> []" and "mime_type \<noteq> []"
    and "\<not> startswith mime_type (ascii ''image/'')"
    and "mime_type \<noteq> ascii ''application/pdf''"
  shows "prepare_message_content text (Some file_data) (Some mime_type)
     = (if truthy text then [TextPart (the text)] else [])
       @ [TextPart (file_label_head @ mime_type @ file_label_tail
                    @ take 4000 (decode_utf8 Ignore file_data) @ ellipsis)]
   \<and> (list_all is_scalar s \<and> file_data = utf8_encode s
        \<longrightarrow> take 4000 (decode_utf8 Ignore file_data) = take 4000 s)"
proof -
  have "encode_file_to_base64 file_data mime_type \<noteq> None"
    by (simp add: encode_file_to_base64_def)
  then show ?thesis
    using assms
    by (simp add: prepare_message_content_def text_content_of_def decode_utf8_encode)
qed

theorem C6_witness:
  "prepare_message_content None (Some (utf8_encode [1055, 33])) (Some (ascii ''text/plain''))
     = [TextPart (file_label_head @ ascii ''text/plain'' @ file_label_tail
                  @ [1055, 33] @ ellipsis)]"
proof -
  have h1: "utf8_encode [1055, 33] \<noteq> []"
    by (simp add: utf8_encode_def utf8_encode1_def)
  have h5: "list_all is_scalar [1055, 33]" by (simp add: is_scalar_def)
  show ?thesis
    using C6_text_file_part [OF h1 text_plain_nonempty text_plain_not_image text_plain_not_pdf,
        of None "[1055, 33]"] h5
    by simp
qed

text \<open>
  C6 as the specification words it fails: for the bytes FF 41 of type \<open>text/plain\<close>
  the code drops the byte FF and closes the part with \<open>...\<close>, where the specification
  has U+FFFD for the byte and nothing after the content.
\<close>

theorem C6_counterexample:
  "prepare_message_content None (Some [255, 65]) (Some (ascii ''text/plain''))
     = [TextPart (file_label_head @ ascii ''text/plain'' @ file_label_tail @ [65] @ ellipsis)]
   \<and> spec_file_part [255, 65] (ascii ''text/plain'')
     = TextPart (file_label_head @ ascii ''text/plain'' @ file_label_tail @ [65533, 65])
   \<and> prepare_message_content None (Some [255, 65]) (Some (ascii ''text/plain''))
     \<noteq> [spec_file_part [255, 65] (ascii ''text/plain'')]"
proof -
  have a: "prepare_message_content None (Some [255, 65]) (Some (ascii ''text/plain''))
     = [TextPart (file_label_head @ ascii ''text/plain'' @ file_label_tail @ [65] @ ellipsis)]"
    by (simp add: prepare_message_content_def text_content_of_def text_plain_nonempty
        text_plain_not_image text_plain_not_pdf decode_ignore_FF_41)
  have b: "spec_file_part [255, 65] (ascii ''text/plain'')
     = TextPart (file_label_head @ ascii ''text/plain'' @ file_label_tail @ [65533, 65])"
    by (simp add: spec_file_part_def decode_replace_FF_41)
  have c: "[65] @ ellipsis \<noteq> [65533, 65::nat]" by (simp add: ellipsis_def)
  show ?thesis unfolding a b using c by simp
qed

section \<open>Properties of the completion client\<close>

lemma add_after_get:
  "add_to_context (snd (get_user_context s u)) u r c = add_to_context s u r c"
  by (simp add: add_to_context_def get_user_context_def Let_def split: option.splits)

lemma get_existing: "user_contexts s u = Some h \<Longrightarrow> get_user_context s u = (h, s)"
  by (simp add: get_user_context_def)

lemma get_as_history: "get_user_context s u = (history s u, snd (get_user_context s u))"
  by (simp add: history_def)

lemma try_unfold:
  "call_gemini_api_try post s u text fd mt =
     (case post (request_messages s u text fd mt) of
        Raises e \<Rightarrow> (Inl e, snd (get_user_context s u))
      | Returns response \<Rightarrow>
          if status_code response = 200 then
            (case json_result response of
               Inl e \<Rightarrow> (Inl e, snd (get_user_context s u))
             | Inr result \<Rightarrow>
                 (case extract_reply result of
                    Inl e \<Rightarrow> (Inl e, snd (get_user_context s u))
                  | Inr ai_response \<Rightarrow>
                      (Inr ai_response,
                       add_to_context
                         (add_to_context s u (ascii ''user'')
                            (Parts (prepare_message_content text fd mt)))
                         u (ascii ''assistant'') (Reply ai_response))))
          else
            (Inr (JStr (api_error_head @ str_int (status_code response) @ [10]
                        @ body_text response)), snd (get_user_context s u)))"
  unfolding call_gemini_api_try_def request_messages_def
  by (subst get_as_history)
    (simp add: Let_def add_after_get split: http_result.splits sum.splits)

lemma failure_state:
  assumes "failure_outcome (post (request_messages s u text fd mt))"
  shows "snd (call_gemini_api post s u text fd mt) = snd (get_user_context s u)"
  using assms
  by (auto simp: call_gemini_api_def try_unfold failure_outcome_def
      split: http_result.splits sum.splits if_splits exn_kind.splits)

lemma failure_returns_string:
  assumes "failure_outcome (post (request_messages s u text fd mt))"
  shows "\<exists>txt. fst (call_gemini_api post s u text fd mt) = JStr txt"
  using assms
  by (auto simp: call_gemini_api_def try_unfold failure_outcome_def
      split: http_result.splits sum.splits if_splits exn_kind.splits)

text \<open>
  C2. For a user who has an entry in the store, a completion call that ends in a
  failure (\<open>requests.post\<close> raises a timeout, a connection error or any other
  exception; the status is not 200; the body does not parse; the parsed value lacks
  \<open>choices[0].message.content\<close>) leaves the whole store, and so the history of the
  user turn for turn, as it was before the call.
\<close>

theorem C2_failure_keeps_history:
  assumes "user_contexts s u = Some h"
    and "failure_outcome (post (request_messages s u text file_data mime_type))"
  shows "snd (call_gemini_api post s u text file_data mime_type) = s
     \<and> history (snd (call_gemini_api post s u text file_data mime_type)) u = h"
  using failure_state [of post s u "text" file_data mime_type] assms
  by (simp add: get_existing history_def)


lemma two_appends_history:
  assumes "int (length (history s u)) \<le> 2 * max_context_length s"
    and "1 \<le> max_context_length s"
  shows "history (add_to_context (add_to_context s u r1 c1) u r2 c2) u
     = drop (length (history s u) + 2 - nat (2 * max_context_length s))
         (history s u @ [\<lparr>role = r1, content = c1\<rparr>, \<lparr>role = r2, content = c2\<rparr>])"
proof -
  let ?h = "history s u"
  let ?M = "max_context_length s"
  let ?t1 = "\<lparr>role = r1, content = c1\<rparr>"
  let ?t2 = "\<lparr>role = r2, content = c2\<rparr>"
  consider (full) "int (length ?h) = 2 * ?M" | (one) "int (length ?h) + 1 = 2 * ?M"
    | (room) "int (length ?h) + 2 \<le> 2 * ?M"
    using assms(1) by linarith
  then show ?thesis
  proof cases
    case full
    then have "?h \<noteq> []" using assms(2) by auto
    then obtain x xs where h: "?h = x # xs" by (cases ?h) auto
    have d: "length ?h + 2 - nat (2 * ?M) = 2" using full by linarith
    have 1: "history (add_to_context s u r1 c1) u = xs @ [?t1]"
      using full by (simp add: history_add Let_def h)
    have "int (length (xs @ [?t1])) = 2 * ?M" using full h by simp
    then have 2: "history (add_to_context (add_to_context s u r1 c1) u r2 c2) u
        = drop 1 (xs @ [?t1, ?t2])"
      by (simp add: history_add [of "add_to_context s u r1 c1"] Let_def 1)
    show ?thesis unfolding 2 d by (simp add: h)
  next
    case one
    have d: "length ?h + 2 - nat (2 * ?M) = 1" using one by linarith
    have 1: "history (add_to_context s u r1 c1) u = ?h @ [?t1]"
      using one by (simp add: history_add Let_def)
    have "int (length (?h @ [?t1])) = 2 * ?M" using one by simp
    then have 2: "history (add_to_context (add_to_context s u r1 c1) u r2 c2) u
        = drop 1 (?h @ [?t1, ?t2])"
      by (simp add: history_add [of "add_to_context s u r1 c1"] Let_def 1)
    show ?thesis unfolding 2 d by simp
  next
    case room
    have d: "length ?h + 2 - nat (2 * ?M) = 0" using room by linarith
    have 1: "history (add_to_context s u r1 c1) u = ?h @ [?t1]"
      using room by (simp add: history_add Let_def)
    have "int (length (?h @ [?t1])) + 1 \<le> 2 * ?M" using room by simp
    then have 2: "history (add_to_context (add_to_context s u r1 c1) u r2 c2) u
        = ?h @ [?t1, ?t2]"
      by (simp add: history_add [of "add_to_context s u r1 c1"] Let_def 1)
    show ?thesis unfolding 2 d by simp
  qed
qed

text \<open>
  C3. A completion call answered with status 200 and a body in which
  \<open>choices[0].message.content\<close> is found performs exactly two appends on the history
  of the user, first the turn with role \<open>user\<close> and the encoded message content, then
  the turn with role \<open>assistant\<close> and the extracted reply, and returns the reply. In a
  store within its bound the history afterwards is the old history followed by these
  two turns, less the oldest turns beyond \<open>2 * max_context_length\<close>.
\<close>

theorem C3_success_appends_two:
  assumes "post (request_messages s u text file_data mime_type) = Returns r"
    and "status_code r = 200"
    and "json_result r = Inr result"
    and "extract_reply result = Inr v"
  shows "call_gemini_api post s u text file_data mime_type
     = (v, add_to_context
             (add_to_context s u (ascii ''user'')
                (Parts (prepare_message_content text file_data mime_type)))
             u (ascii ''assistant'') (Reply v))
   \<and> (int (length (history s u)) \<le> 2 * max_context_length s \<and> 1 \<le> max_context_length s
        \<longrightarrow> history (snd (call_gemini_api post s u text file_data mime_type)) u
            = drop (length (history s u) + 2 - nat (2 * max_context_length s))
                (history s u
                 @ [\<lparr>role = ascii ''user'',
                      content = Parts (prepare_message_content text file_data mime_type)\<rparr>,
                    \<lparr>role = ascii ''assistant'', content = Reply v\<rparr>]))"
proof -
  have c: "call_gemini_api post s u text file_data mime_type
     = (v, add_to_context
             (add_to_context s u (ascii ''user'')
                (Parts (prepare_message_content text file_data mime_type)))
             u (ascii ''assistant'') (Reply v))"
    using assms by (simp add: call_gemini_api_def try_unfold)
  show ?thesis unfolding c by (simp add: two_appends_history)
qed

lemma extract_sample_reply: "extract_reply (sample_reply v) = Inr v"
  by (simp add: extract_reply_def sample_reply_def ascii_def)

theorem C3_witness:
  "call_gemini_api
     (\<lambda>messages. Returns \<lparr>status_code = 200, body_text = [],
                             json_result = Inr (sample_reply (JStr (ascii ''yo'')))\<rparr>)
     GeminiBot_init 7 (Some (ascii ''hi'')) None None
   = (JStr (ascii ''yo''),
      add_to_context
        (add_to_context GeminiBot_init 7 (ascii ''user'') (Parts [TextPart (ascii ''hi'')]))
        7 (ascii ''assistant'') (Reply (JStr (ascii ''yo''))))
   \<and> history (snd (call_gemini_api
        (\<lambda>messages. Returns \<lparr>status_code = 200, body_text = [],
                                json_result = Inr (sample_reply (JStr (ascii ''yo'')))\<rparr>)
        GeminiBot_init 7 (Some (ascii ''hi'')) None None)) 7
     = [\<lparr>role = ascii ''user'', content = Parts [TextPart (ascii ''hi'')]\<rparr>,
        \<lparr>role = ascii ''assistant'', content = Reply (JStr (ascii ''yo''))\<rparr>]"
proof -
  let ?post = "\<lambda>messages::turn list. Returns \<lparr>status_code = 200, body_text = [],
                             json_result = Inr (sample_reply (JStr (ascii ''yo'')))\<rparr>"
  have p: "prepare_message_content (Some (ascii ''hi'')) None None = [TextPart (ascii ''hi'')]"
    by (simp add: prepare_message_content_def ascii_def)
  show ?thesis
    using C3_success_appends_two [of ?post GeminiBot_init 7 "Some (ascii ''hi'')" None None
        "\<lparr>status_code = 200, body_text = [],
          json_result = Inr (sample_reply (JStr (ascii ''yo'')))\<rparr>"
        "sample_reply (JStr (ascii ''yo''))" "JStr (ascii ''yo'')"]
    by (auto simp add: p extract_sample_reply)
qed

theorem C2_witness:
  "snd (call_gemini_api
          (\<lambda>messages. Returns \<lparr>status_code = 500, body_text = ascii ''down'',
                                  json_result = Inl (Exn ValueError [])\<rparr>)
          \<lparr>user_contexts = [7 \<mapsto> [\<lparr>role = ascii ''user'', content = Parts []\<rparr>]],
            max_context_length = 10\<rparr>
          7 (Some (ascii ''hi'')) None None)
   = \<lparr>user_contexts = [7 \<mapsto> [\<lparr>role = ascii ''user'', content = Parts []\<rparr>]],
       max_context_length = 10\<rparr>
   \<and> snd (call_gemini_api (\<lambda>messages. Raises (Exn Timeout []))
          \<lparr>user_contexts = [7 \<mapsto> [\<lparr>role = ascii ''user'', content = Parts []\<rparr>]],
            max_context_length = 10\<rparr>
          7 (Some (ascii ''hi'')) None None)
   = \<lparr>user_contexts = [7 \<mapsto> [\<lparr>role = ascii ''user'', content = Parts []\<rparr>]],
       max_context_length = 10\<rparr>"
proof -
  let ?s = "\<lparr>user_contexts = [7 \<mapsto> [\<lparr>role = ascii ''user'', content = Parts []\<rparr>]],
             max_context_length = 10\<rparr>"
  let ?p1 = "\<lambda>messages::turn list. Returns \<lparr>status_code = 500, body_text = ascii ''down'',
                                  json_result = Inl (Exn ValueError [])\<rparr>"
  let ?p2 = "\<lambda>messages::turn list. Raises (Exn Timeout [])"
  have h: "user_contexts ?s 7 = Some [\<lparr>role = ascii ''user'', content = Parts []\<rparr>]"
    by simp
  have f1: "failure_outcome (?p1 (request_messages ?s 7 (Some (ascii ''hi'')) None None))"
    by (simp add: failure_outcome_def)
  have f2: "failure_outcome (?p2 (request_messages ?s 7 (Some (ascii ''hi'')) None None))"
    by (simp add: failure_outcome_def)
  show ?thesis
    using C2_failure_keeps_history [of ?s 7 _ ?p1, OF h f1]
      C2_failure_keeps_history [of ?s 7 _ ?p2, OF h f2]
    by simp
qed

text \<open>
  C4. The completion client turns every exception of its \<open>try\<close> block into a string
  (\<open>failure_returns_string\<close>), but it returns \<open>choices[0].message.content\<close> as it
  finds it: for a 200 response whose content is \<open>null\<close> the call returns \<open>None\<close>,
  which is not a string.
\<close>

theorem C4_null_content_returned:
  "fst (call_gemini_api
          (\<lambda>messages. Returns \<lparr>status_code = 200, body_text = [],
                                  json_result = Inr (sample_reply JNull)\<rparr>)
          GeminiBot_init 7 (Some (ascii ''hi'')) None None)
   = JNull"
  by (simp add: call_gemini_api_def try_unfold extract_sample_reply)


section \<open>Properties of the relay step\<close>

lemma chunk_index: "(4096 * j < n) = (j < (n + 4095) div 4096)" for j n :: nat
  by linarith

lemma send_chunks_str:
  "send_chunks chat (JStr r) (4096 * j) n
     = (None, map (\<lambda>k. SendMessage chat (JStr (take 4096 (drop (4096 * k) r))))
                [j ..< (n + 4095) div 4096])"
proof (induction "(n + 4095) div 4096 - j" arbitrary: j)
  case 0
  then have "\<not> 4096 * j < n" by (simp add: chunk_index)
  then show ?case using 0 by (simp add: send_chunks.simps [of chat "JStr r" "4096 * j" n])
next
  case (Suc d)
  then have lt: "j < (n + 4095) div 4096" by linarith
  then have i: "4096 * j < n" by (simp add: chunk_index)
  have "d = (n + 4095) div 4096 - Suc j" using Suc.hyps(2) by linarith
  from Suc.hyps(1) [OF this]
  have IH: "send_chunks chat (JStr r) (4096 * j + 4096) n
     = (None, map (\<lambda>k. SendMessage chat (JStr (take 4096 (drop (4096 * k) r))))
                [Suc j ..< (n + 4095) div 4096])"
    by (simp add: algebra_simps)
  show ?case
    by (subst send_chunks.simps) (simp add: i IH upt_conv_Cons [OF lt])
qed

lemma concat_chunks:
  "concat (map (\<lambda>k. take c (drop (c * k) r)) [0 ..< m]) = take (c * m) r"
proof (induction m)
  case 0
  then show ?case by simp
next
  case (Suc m)
  have "take (c + c * m) r = take (c * m) r @ take c (drop (c * m) r)"
    using take_add [of "c * m" c r] by (simp add: add.commute)
  then show ?case using Suc by simp
qed

text \<open>
  C5, as the code has it. For every response string the relay step sends
  \<open>max 1 (ceil (len / 4096))\<close> messages, the consecutive 4096-character slices of the
  response in order (the last one possibly shorter), and their concatenation in send
  order is the response. So a response of at most 4096 characters, the empty one
  included, is sent as one message.
\<close>

theorem C5_relay_chunks:
  "relay chat (JStr r)
     = (None, map (\<lambda>k. SendMessage chat (JStr (take 4096 (drop (4096 * k) r))))
                [0 ..< max 1 ((length r + 4095) div 4096)])
   \<and> concat (map (\<lambda>k. take 4096 (drop (4096 * k) r))
               [0 ..< max 1 ((length r + 4095) div 4096)]) = r"
proof -
  let ?m = "(length r + 4095) div 4096"
  have cover: "length r \<le> 4096 * max 1 ?m" by (auto simp: max_def)
  have c: "concat (map (\<lambda>k. take 4096 (drop (4096 * k) r)) [0 ..< max 1 ?m]) = r"
    using cover by (simp add: concat_chunks)
  show ?thesis
  proof (cases "length r > 4096")
    case True
    then have m: "max 1 ?m = ?m" by (auto simp: max_def)
    have "relay chat (JStr r) = send_chunks chat (JStr r) (4096 * 0) (length r)"
      using True by (simp add: relay_def)
    then show ?thesis using c unfolding m by (simp only: send_chunks_str)
  next
    case False
    then have "?m \<le> 1" by linarith
    then have m: "max 1 ?m = 1" by (simp add: max_def)
    have "relay chat (JStr r) = (None, [SendMessage chat (JStr r)])"
      using False by (simp add: relay_def)
    moreover have "take 4096 r = r" using False by simp
    ultimately show ?thesis using c unfolding m by simp
  qed
qed

text \<open>
  C5 as the specification words it fails for the empty response: one message is sent,
  and \<open>ceil (0 / 4096)\<close> is 0.
\<close>

theorem C5_counterexample:
  "length (snd (relay 0 (JStr []))) \<noteq> (length ([] :: pystr) + 4095) div 4096"
  by (simp add: relay_def)

text \<open>The two sizes the specification names.\<close>

lemma relay_4096:
  "length r = 4096 \<Longrightarrow> relay chat (JStr r) = (None, [SendMessage chat (JStr r)])"
  by (simp add: relay_def)


lemma relay_4097:
  assumes "length r = 4097"
  shows "relay chat (JStr r)
     = (None, [SendMessage chat (JStr (take 4096 r)), SendMessage chat (JStr (drop 4096 r))])
   \<and> length (drop 4096 r) = 1"
proof -
  have "relay chat (JStr r) = send_chunks chat (JStr r) (4096 * 0) 4097"
    using assms by (simp add: relay_def)
  also have "\<dots> = (None, map (\<lambda>k. SendMessage chat (JStr (take 4096 (drop (4096 * k) r))))
                [0 ..< 2])"
    by (simp only: send_chunks_str) simp
  finally show ?thesis using assms by (simp add: upt_rec [of 0] upt_rec [of 1] numeral_2_eq_2)
qed

section \<open>Properties of the document handler\<close>

lemma rejected_too_big:
  assumes "get_file pf (file_id (document m)) = Inr info" and "file_size info = Some sz"
    and "sz > 20 * 1024 * 1024"
  shows "document_handler pf s m
     = ([SendChatAction (chat_id m), GetFile (file_id (document m)),
         SendMessage (chat_id m) (JStr too_big_msg)], s)"
  using assms by (simp add: document_handler_def document_handler_try_def Let_def)

lemma rejected_unresolved:
  assumes "get_file pf (file_id (document m)) = Inr info" and "file_size info = Some sz"
    and "\<not> sz > 20 * 1024 * 1024"
    and "resolve_mime_type pf (document m) = Inr mime_type" and "\<not> truthy mime_type"
  shows "document_handler pf s m
     = ([SendChatAction (chat_id m), GetFile (file_id (document m)),
         SendMessage (chat_id m) (JStr unknown_type_msg)], s)"
  using assms by (simp add: document_handler_def document_handler_try_def Let_def)

lemma rejected_unsupported:
  assumes "get_file pf (file_id (document m)) = Inr info" and "file_size info = Some sz"
    and "\<not> sz > 20 * 1024 * 1024"
    and "resolve_mime_type pf (document m) = Inr (Some mt)" and "mt \<noteq> []"
    and "mt \<notin> set SUPPORTED_DOCUMENT_TYPES" and "\<not> startswith mt (ascii ''text/'')"
  shows "document_handler pf s m
     = ([SendChatAction (chat_id m), GetFile (file_id (document m)),
         SendMessage (chat_id m)
           (JStr (unsupported_head @ join (ascii '', '') SUPPORTED_DOCUMENT_TYPES))], s)"
  using assms by (simp add: document_handler_def document_handler_try_def Let_def)

text \<open>
  With neither a MIME type nor a file name, resolving the type raises; the handler then
  answers with its error message, again before any download or completion call.
\<close>

lemma rejected_resolution_raises:
  assumes "get_file pf (file_id (document m)) = Inr info" and "file_size info = Some sz"
    and "\<not> sz > 20 * 1024 * 1024"
    and "resolve_mime_type pf (document m) = Inl e"
  shows "document_handler pf s m
     = ([SendChatAction (chat_id m), GetFile (file_id (document m)),
         SendMessage (chat_id m) (JStr (file_error_head @ msg e))], s)"
  using assms by (simp add: document_handler_def document_handler_try_def Let_def)

text \<open>
  C7. When the file size reported by \<open>get_file\<close> exceeds 20 MiB, or the MIME type
  resolves to nothing, or it resolves to a type that is neither in
  \<open>SUPPORTED_DOCUMENT_TYPES\<close> nor starts with \<open>text/\<close>, the document handler makes
  exactly three calls (the typing action, \<open>get_file\<close>, and one message naming the
  reason) and leaves the store as it was: no download and no completion call.
\<close>

theorem C7_document_rejected:
  assumes "get_file pf (file_id (document m)) = Inr info" and "file_size info = Some sz"
    and "sz > 20 * 1024 * 1024
         \<or> (resolve_mime_type pf (document m) = Inr mime_type
            \<and> (if truthy mime_type
                then the mime_type \<notin> set SUPPORTED_DOCUMENT_TYPES
                     \<and> \<not> startswith (the mime_type) (ascii ''text/'')
                else True))"
  shows "document_handler pf s m
     = ([SendChatAction (chat_id m), GetFile (file_id (document m)),
         SendMessage (chat_id m)
           (JStr (if sz > 20 * 1024 * 1024 then too_big_msg
                  else if truthy mime_type
                  then unsupported_head @ join (ascii '', '') SUPPORTED_DOCUMENT_TYPES
                  else unknown_type_msg))], s)
   \<and> filter is_completion_call (fst (document_handler pf s m)) = []
   \<and> filter is_download (fst (document_handler pf s m)) = []"
proof -
  have r: "document_handler pf s m
     = ([SendChatAction (chat_id m), GetFile (file_id (document m)),
         SendMessage (chat_id m)
           (JStr (if sz > 20 * 1024 * 1024 then too_big_msg
                  else if truthy mime_type
                  then unsupported_head @ join (ascii '', '') SUPPORTED_DOCUMENT_TYPES
                  else unknown_type_msg))], s)"
  proof (cases "sz > 20 * 1024 * 1024")
    case True
    then show ?thesis using rejected_too_big [OF assms(1,2)] by simp
  next
    case False
    then have res: "resolve_mime_type pf (document m) = Inr mime_type"
      and c: "if truthy mime_type
                then the mime_type \<notin> set SUPPORTED_DOCUMENT_TYPES
                     \<and> \<not> startswith (the mime_type) (ascii ''text/'')
                else True"
      using assms(3) by auto
    show ?thesis
    proof (cases "truthy mime_type")
      case t: True
      then obtain mt where mt: "mime_type = Some mt" "mt \<noteq> []"
        by (cases mime_type) auto
      have "mt \<notin> set SUPPORTED_DOCUMENT_TYPES" "\<not> startswith mt (ascii ''text/'')"
        using c t mt by auto
      from rejected_unsupported [OF assms(1,2) False res [unfolded mt(1)] mt(2) this]
      show ?thesis using False t by simp
    next
      case f: False
      from rejected_unresolved [OF assms(1,2) False res f]
      show ?thesis using False f by simp
    qed
  qed
  show ?thesis unfolding r by simp
qed

lemma zip_unsupported:
  "ascii ''application/zip'' \<notin> set SUPPORTED_DOCUMENT_TYPES
   \<and> \<not> startswith (ascii ''application/zip'') (ascii ''text/'')
   \<and> ascii ''application/zip'' \<noteq> []"
  by (simp add: SUPPORTED_DOCUMENT_TYPES_def startswith_def ascii_def)

theorem C7_witness:
  "document_handler (sample_platform 30000000) GeminiBot_init
       (sample_document (Some (ascii ''text/plain'')))
     = ([SendChatAction 5, GetFile (ascii ''F1''), SendMessage 5 (JStr too_big_msg)],
        GeminiBot_init)
   \<and> document_handler (sample_platform 10) GeminiBot_init (sample_document None)
     = ([SendChatAction 5, GetFile (ascii ''F1''), SendMessage 5 (JStr unknown_type_msg)],
        GeminiBot_init)
   \<and> document_handler (sample_platform 10) GeminiBot_init
       (sample_document (Some (ascii ''application/zip'')))
     = ([SendChatAction 5, GetFile (ascii ''F1''),
         SendMessage 5 (JStr (unsupported_head @ join (ascii '', '') SUPPORTED_DOCUMENT_TYPES))],
        GeminiBot_init)"
proof -
  have g: "get_file (sample_platform sz) (file_id (document (sample_document mt)))
      = Inr \<lparr>file_size = Some sz, file_path = Some (ascii ''documents/f'')\<rparr>" for sz mt
    by (simp add: sample_platform_def)
  have r1: "resolve_mime_type (sample_platform 10) (document (sample_document None)) = Inr None"
    by (simp add: resolve_mime_type_def sample_platform_def sample_document_def)
  have r2: "resolve_mime_type (sample_platform 10)
        (document (sample_document (Some (ascii ''application/zip''))))
      = Inr (Some (ascii ''application/zip''))"
    using zip_unsupported
    by (simp add: resolve_mime_type_def sample_platform_def sample_document_def)
  have a: "document_handler (sample_platform 30000000) GeminiBot_init
       (sample_document (Some (ascii ''text/plain'')))
     = ([SendChatAction 5, GetFile (ascii ''F1''), SendMessage 5 (JStr too_big_msg)],
        GeminiBot_init)"
    using C7_document_rejected [OF g, of 30000000 30000000 _ None GeminiBot_init]
    by (simp add: sample_document_def)
  have b: "document_handler (sample_platform 10) GeminiBot_init (sample_document None)
     = ([SendChatAction 5, GetFile (ascii ''F1''), SendMessage 5 (JStr unknown_type_msg)],
        GeminiBot_init)"
    using C7_document_rejected [OF g, of 10 10 None None GeminiBot_init] r1
    by (simp add: sample_document_def)
  have c: "document_handler (sample_platform 10) GeminiBot_init
       (sample_document (Some (ascii ''application/zip'')))
     = ([SendChatAction 5, GetFile (ascii ''F1''),
         SendMessage 5 (JStr (unsupported_head @ join (ascii '', '') SUPPORTED_DOCUMENT_TYPES))],
        GeminiBot_init)"
    using C7_document_rejected [OF g, of 10 10 "Some (ascii ''application/zip'')"
        "Some (ascii ''application/zip'')" GeminiBot_init] r2 zip_unsupported
    by (simp add: sample_document_def)
  show ?thesis using a b c by simp
qed


text \<open>An accepted document does reach the completion client, once.\<close>

lemma send_chunks_no_calls:
  "filter is_completion_call (snd (send_chunks chat v i n)) = []"
proof (induction chat v i n rule: send_chunks.induct)
  case (1 chat response i n)
  show ?case
    by (subst send_chunks.simps) (use 1 in \<open>auto split: sum.splits prod.splits\<close>)
qed

lemma relay_no_calls: "filter is_completion_call (snd (relay chat v)) = []"
  by (simp add: relay_def send_chunks_no_calls split: sum.splits)

lemma accepted_calls_completion:
  assumes "get_file pf (file_id (document m)) = Inr info" and "file_size info = Some sz"
    and "\<not> sz > 20 * 1024 * 1024"
    and "resolve_mime_type pf (document m) = Inr (Some mt)" and "mt \<noteq> []"
    and "mt \<in> set SUPPORTED_DOCUMENT_TYPES \<or> startswith mt (ascii ''text/'')"
    and "download_file pf (file_path info) = Inr file_data"
  shows "filter is_completion_call (fst (document_handler pf s m))
     = [CallCompletion (from_user_id m)
          (Some (if truthy (caption m) then the (caption m)
                 else analyze_head @ str_opt (file_name (document m))))
          (Some file_data) (Some mt)]"
proof -
  obtain r evs where rl: "relay (chat_id m)
      (fst (call_gemini_api (requests_post pf) s (from_user_id m)
         (Some (if truthy (caption m) then the (caption m)
                else analyze_head @ str_opt (file_name (document m))))
         (Some file_data) (Some mt))) = (r, evs)"
    by (cases "relay (chat_id m)
      (fst (call_gemini_api (requests_post pf) s (from_user_id m)
         (Some (if truthy (caption m) then the (caption m)
                else analyze_head @ str_opt (file_name (document m))))
         (Some file_data) (Some mt)))") auto
  have e: "filter is_completion_call evs = []"
    using relay_no_calls [of "chat_id m"] rl by (metis snd_conv)
  show ?thesis
    using assms rl e
    by (cases r)
      (auto simp: document_handler_def document_handler_try_def Let_def split: prod.splits)
qed


end
